theory Spec2Isabelle
  imports Complex_Main "HOL-Library.Word"
begin

section \<open>Bytes and the bit-level library operations\<close>

text \<open>
  A Python \<open>bytes\<close> value is a list of 8-bit words. The arrays that
  \<open>np.unpackbits\<close> returns hold only the values 0 and 1; they are modelled as
  lists of booleans (\<open>True\<close> for 1).
\<close>

type_synonym byte = "8 word"

definition bits_of_byte :: "byte \<Rightarrow> bool list" where
  \<comment> \<open>\<open>np.unpackbits\<close> on one element: most significant bit first.\<close>
  "bits_of_byte w = map (bit w) [7, 6, 5, 4, 3, 2, 1, 0]"

definition unpackbits :: "byte list \<Rightarrow> bool list" where
  \<comment> \<open>\<open>np.unpackbits(np.frombuffer(data, dtype=np.uint8))\<close>\<close>
  "unpackbits data = concat (map bits_of_byte data)"

definition byte_of_bits :: "bool list \<Rightarrow> byte" where
  \<comment> \<open>eight bits, most significant first, as one byte\<close>
  "byte_of_bits bs = foldl (\<lambda>acc b. 2 * acc + of_bool b) 0 bs"

fun packbits :: "bool list \<Rightarrow> byte list" where
  \<comment> \<open>\<open>np.packbits(...).tobytes()\<close>: groups of eight, the last group
      completed with zero bits on the right\<close>
  "packbits [] = []"
| "packbits (b # bs) =
     byte_of_bits (take 8 (b # bs @ replicate 7 False)) # packbits (drop 7 bs)"

section \<open>The debiaser: \<open>FPGASimulator._apply_debiasing\<close>\<close>

text \<open>
  The scan loop of the source,
  \<^verbatim>\<open>i = 0
while i < len(bits) - 1:
    pair = (bits[i], bits[i + 1])
    if pair == (0, 1): debiased_bits.append(0)
    elif pair == (1, 0): debiased_bits.append(1)
    i += 2\<close>
  with the index \<open>i\<close> and the output list \<open>debiased_bits\<close> as arguments.
  \<open>len(bits) - 1\<close> is \<open>-1\<close> on the empty array, so the comparison is made
  on integers.
\<close>

function scan_loop :: "bool list \<Rightarrow> nat \<Rightarrow> bool list \<Rightarrow> bool list" where
  "scan_loop bits i debiased_bits =
     (if int i < int (length bits) - 1 then
        let pair = (bits ! i, bits ! (i + 1)) in
        scan_loop bits (i + 2)
          (if pair = (False, True) then debiased_bits @ [False]
           else if pair = (True, False) then debiased_bits @ [True]
           else debiased_bits)
      else debiased_bits)"
  by pat_completeness auto
termination
  by (relation "measure (\<lambda>(bits, i, acc). length bits - i)") auto

declare scan_loop.simps [simp del]

text \<open>
  The padding loop,
  \<^verbatim>\<open>while len(debiased_bits) % 8 != 0:
    debiased_bits.append(0)\<close>
\<close>

function pad_loop :: "bool list \<Rightarrow> bool list" where
  "pad_loop debiased_bits =
     (if length debiased_bits mod 8 \<noteq> 0 then pad_loop (debiased_bits @ [False])
      else debiased_bits)"
  by pat_completeness auto
termination
proof (relation "measure (\<lambda>bs. (8 - length bs mod 8) mod 8)")
  show "wf (measure (\<lambda>bs :: bool list. (8 - length bs mod 8) mod 8))"
    by simp
next
  fix debiased_bits :: "bool list"
  assume nz: "length debiased_bits mod 8 \<noteq> 0"
  define m where "m = length debiased_bits mod 8"
  have m: "0 < m" "m < 8" using nz by (simp_all add: m_def)
  have "Suc (length debiased_bits) mod 8 = (if Suc m = 8 then 0 else Suc m)"
    unfolding m_def by (rule mod_Suc)
  with m have "(8 - Suc (length debiased_bits) mod 8) mod 8 < (8 - m) mod 8"
    by (auto split: if_splits)
  then show "(debiased_bits @ [False], debiased_bits)
      \<in> measure (\<lambda>bs. (8 - length bs mod 8) mod 8)"
    using nz by (simp add: m_def)
qed

declare pad_loop.simps [simp del]

text \<open>
  The whole operation. The body of the \<open>try\<close> block raises nothing on a byte
  string by itself; the flag \<open>fault\<close> stands for an exception raised inside the
  block by the environment (allocation failure in the array library, say), in
  which case the \<open>except\<close> branch returns \<open>data\<close> as it is.
\<close>

definition apply_debiasing :: "bool \<Rightarrow> byte list \<Rightarrow> byte list" where
  "apply_debiasing fault data =
     (if fault then data
      else
        let bits = unpackbits data;
            debiased_bits = pad_loop (scan_loop bits 0 [])
        in if debiased_bits \<noteq> [] then packbits debiased_bits
           else take (length data div 2) data)"

section \<open>The von Neumann transform as the specification words it\<close>

text \<open>
  Non-overlapping pairs from the start: (0,1) gives a 0 bit, (1,0) a 1 bit,
  equal pairs nothing; a trailing unpaired bit is dropped.
\<close>

fun von_neumann_pairs :: "bool list \<Rightarrow> bool list" where
  "von_neumann_pairs (False # True # rest) = False # von_neumann_pairs rest"
| "von_neumann_pairs (True # False # rest) = True # von_neumann_pairs rest"
| "von_neumann_pairs (_ # _ # rest) = von_neumann_pairs rest"
| "von_neumann_pairs _ = []"

definition pad_to_byte_boundary :: "bool list \<Rightarrow> bool list" where
  \<comment> \<open>zero bits on the right, up to the next multiple of 8\<close>
  "pad_to_byte_boundary bs = bs @ replicate ((8 - length bs mod 8) mod 8) False"

definition von_neumann_reference :: "byte list \<Rightarrow> byte list" where
  "von_neumann_reference data =
     packbits (pad_to_byte_boundary (von_neumann_pairs (unpackbits data)))"

section \<open>The noise source: \<open>FPGASimulator._generate_quantum_noise\<close>\<close>

text \<open>
  The function draws \<open>size\<close> bytes from \<open>secrets.token_bytes\<close>, perturbs them
  with pseudo-random thermal, shot and interference terms, clips to the byte
  range and hands \<open>quantum_data.tobytes()\<close> to \<open>_apply_debiasing\<close>. What the
  random sources delivered in one call is an argument of the model:
  \<^item> \<open>Perturbed raw fault\<close>: the \<open>try\<close> block ran through; \<open>raw\<close> is the clipped
    array as bytes (\<open>size\<close> of them) and \<open>fault\<close> the flag of \<open>apply_debiasing\<close>;
  \<^item> \<open>Unperturbed base\<close>: the \<open>try\<close> block raised (an invalid noise parameter,
    say); \<open>base\<close> is the \<open>secrets.token_bytes(size)\<close> of the \<open>except\<close> branch.
\<close>

datatype noise_draw = Perturbed "byte list" bool | Unperturbed "byte list"

fun draw_bytes :: "noise_draw \<Rightarrow> byte list" where
  "draw_bytes (Perturbed raw fault) = raw"
| "draw_bytes (Unperturbed base) = base"

definition draw_ok :: "int \<Rightarrow> noise_draw \<Rightarrow> bool" where
  \<comment> \<open>the draw is one that a call with \<open>size = n\<close> can see\<close>
  "draw_ok n d = (int (length (draw_bytes d)) = n)"

fun generate_quantum_noise :: "int \<Rightarrow> noise_draw \<Rightarrow> byte list" where
  "generate_quantum_noise n (Perturbed raw fault) = apply_debiasing fault raw"
| "generate_quantum_noise n (Unperturbed base) = base"

section \<open>The entropy buffer: \<open>buffer_worker\<close> and \<open>generate_random_bytes\<close>\<close>

text \<open>
  The fields of \<open>FPGASimulator\<close> that the buffer and the counters use. The
  time-dependent entries of \<open>stats\<close> are left out.
\<close>

record fpga_simulator =
  target_throughput_mbps :: real
  buffer_size :: nat
  random_buffer :: "byte list"
  stats_total_bytes_generated :: int
  stats_generation_requests :: int

definition fpga_init :: "real \<Rightarrow> fpga_simulator" where
  \<comment> \<open>\<open>__init__\<close>: a 1 MB buffer, empty\<close>
  "fpga_init mbps =
     \<lparr>target_throughput_mbps = mbps, buffer_size = 1024 * 1024, random_buffer = [],
      stats_total_bytes_generated = 0, stats_generation_requests = 0\<rparr>"

text \<open>Python's \<open>xs[:n]\<close> and \<open>del xs[:n]\<close>; a negative \<open>n\<close> counts from the end.\<close>

definition slice_to :: "'a list \<Rightarrow> int \<Rightarrow> 'a list" where
  "slice_to xs n =
     (if n < 0 then take (nat (int (length xs) + n)) xs else take (nat n) xs)"

definition del_slice_to :: "'a list \<Rightarrow> int \<Rightarrow> 'a list" where
  "del_slice_to xs n =
     (if n < 0 then drop (nat (int (length xs) + n)) xs else drop (nat n) xs)"

text \<open>One iteration of the body of \<open>buffer_worker\<close>, under the buffer lock.\<close>

definition buffer_worker_step :: "noise_draw \<Rightarrow> fpga_simulator \<Rightarrow> fpga_simulator" where
  "buffer_worker_step d s =
     (if length (random_buffer s) < buffer_size s
      then s\<lparr>random_buffer := random_buffer s @ generate_quantum_noise 1024 d\<rparr>
      else s)"

text \<open>
  \<open>generate_random_bytes\<close>; the argument \<open>size\<close> is written \<open>n\<close> here and in
  the functions above, \<open>size\<close> being a constant of the logic. After the locked
  block the counters are updated; then \<open>expected_time = (size * 8) / (self.target_throughput_mbps * 1_000_000)\<close>
  divides by the target throughput, which raises \<open>ZeroDivisionError\<close> when that is
  zero: the outer \<open>except\<close> branch then returns \<open>secrets.token_bytes(size)\<close>,
  the argument \<open>fallback\<close> here. The pacing sleep has no effect on the result
  (a \<open>time.sleep\<close> that the platform refuses as too long would take the same
  \<open>except\<close> branch; durations are outside the model).
\<close>

definition generate_random_bytes ::
  "noise_draw \<Rightarrow> byte list \<Rightarrow> int \<Rightarrow> fpga_simulator \<Rightarrow> byte list \<times> fpga_simulator" where
  "generate_random_bytes d fallback n s =
     (let (result, buf) =
            (if int (length (random_buffer s)) \<ge> n
             then (slice_to (random_buffer s) n, del_slice_to (random_buffer s) n)
             else (generate_quantum_noise n d, random_buffer s));
          s' = s\<lparr>random_buffer := buf,
                 stats_total_bytes_generated := stats_total_bytes_generated s + n,
                 stats_generation_requests := stats_generation_requests s + 1\<rparr>
      in if target_throughput_mbps s = 0 then (fallback, s') else (result, s'))"

text \<open>
  The states of the buffer that the producer and the consumers can reach: both
  run their buffer accesses under \<open>buffer_lock\<close>, so an interleaving is a sequence
  of whole producer iterations and whole calls.
\<close>

inductive reachable :: "fpga_simulator \<Rightarrow> bool" where
  start: "reachable (fpga_init mbps)"
| fill: "reachable s \<Longrightarrow> draw_ok 1024 d \<Longrightarrow> reachable (buffer_worker_step d s)"
| take: "reachable s \<Longrightarrow> reachable (snd (generate_random_bytes d fallback n s))"

text \<open>
  A trace of the producer and one consumer: a chunk of 1024 zero bytes is what
  the noise source clips to when every perturbed value is below 1. The producer
  fills once, a consumer takes 511 bytes, the producer fills 2048 times more.
\<close>

definition zero_chunk :: noise_draw where
  "zero_chunk = Perturbed (replicate 1024 0) False"

definition overfull :: fpga_simulator where
  "overfull =
     (buffer_worker_step zero_chunk ^^ 2048)
       (snd (generate_random_bytes zero_chunk [] 511
          (buffer_worker_step zero_chunk (fpga_init 50))))"

section \<open>The validation aggregate: \<open>QuantumRandomGenerator.validate_randomness\<close>\<close>

text \<open>
  The Python values that the entries of \<open>results['tests']\<close> are made of, with
  \<open>isinstance(t, dict)\<close>, \<open>t.get(key, default)\<close> and truthiness.
\<close>

datatype pyval =
  PyBool bool | PyInt int | PyFloat real | PyStr string | PyDict "(string \<times> pyval) list"

fun isinstance_dict :: "pyval \<Rightarrow> bool" where
  "isinstance_dict (PyDict kvs) = True"
| "isinstance_dict _ = False"

fun dict_get :: "pyval \<Rightarrow> string \<Rightarrow> pyval \<Rightarrow> pyval" where
  \<comment> \<open>called behind \<open>isinstance(test, dict)\<close> only\<close>
  "dict_get (PyDict kvs) key dflt = (case map_of kvs key of Some v \<Rightarrow> v | None \<Rightarrow> dflt)"
| "dict_get _ key dflt = dflt"

fun truthy :: "pyval \<Rightarrow> bool" where
  "truthy (PyBool b) = b"
| "truthy (PyInt i) = (i \<noteq> 0)"
| "truthy (PyFloat x) = (x \<noteq> 0)"
| "truthy (PyStr s) = (s \<noteq> [])"
| "truthy (PyDict kvs) = (kvs \<noteq> [])"

text \<open>
  Each of the five sub-tests returns a dictionary: with a \<open>'passed'\<close> entry when
  its statistic was computed, \<open>{'error': str(e)}\<close> when it caught an exception
  (or, for the serial correlation, on fewer than two bytes). The statistics are
  floating-point computations and stay outside the model; the entries of the
  dictionaries that the aggregate never reads are left out.
\<close>

datatype subtest_outcome = Completed bool | Errored string

fun subtest_result :: "subtest_outcome \<Rightarrow> pyval" where
  "subtest_result (Completed passed) = PyDict [(''passed'', PyBool passed)]"
| "subtest_result (Errored msg) = PyDict [(''error'', PyStr msg)]"

record overall_quality =
  passed_tests :: nat
  total_tests :: nat
  quality_score :: real
  assessment :: string

text \<open>
  Lines 54 to 63 of \<open>quantum_rng.py\<close>, on the values of \<open>results['tests']\<close>.
  The comparisons \<open>passed_tests >= total_tests * 0.8\<close> are made on reals; for at
  most five tests the floating-point products \<open>5 * 0.8\<close> and \<open>5 * 0.6\<close> are the
  exact 4.0 and 3.0, so the two agree.
\<close>

definition overall_assessment :: "pyval list \<Rightarrow> overall_quality" where
  "overall_assessment tests =
     (let passed = length (filter (\<lambda>test. isinstance_dict test
                       \<and> truthy (dict_get test ''passed'' (PyBool False))) tests);
          total = length (filter isinstance_dict tests)
      in \<lparr>passed_tests = passed,
          total_tests = total,
          quality_score = (if total > 0 then real passed / real total else 0),
          assessment = (if real passed \<ge> real total * 0.8 then ''GOOD''
                        else if real passed \<ge> real total * 0.6 then ''FAIR''
                        else ''POOR'')\<rparr>)"

definition validate_randomness ::
  "subtest_outcome \<Rightarrow> subtest_outcome \<Rightarrow> subtest_outcome \<Rightarrow> subtest_outcome
     \<Rightarrow> subtest_outcome \<Rightarrow> overall_quality" where
  "validate_randomness frequency_test runs_test chi_square_test entropy serial_correlation =
     overall_assessment (map subtest_result
       [frequency_test, runs_test, chi_square_test, entropy, serial_correlation])"

text \<open>
  The aggregate as the specification words it: the sub-tests that reported an
  error marker are not counted in the denominator.
\<close>

fun reported_error :: "subtest_outcome \<Rightarrow> bool" where
  "reported_error (Errored msg) = True"
| "reported_error (Completed passed) = False"

definition spec_quality_score :: "subtest_outcome list \<Rightarrow> real" where
  "spec_quality_score outcomes =
     real (length (filter (\<lambda>t. t = Completed True) outcomes))
       / real (length (filter (\<lambda>t. \<not> reported_error t) outcomes))"

definition spec_label :: "real \<Rightarrow> string" where
  "spec_label score =
     (if score \<ge> 0.8 then ''GOOD'' else if score \<ge> 0.6 then ''FAIR'' else ''POOR'')"

section \<open>The metrics aggregator: \<open>PerformanceMonitor.record_generation\<close>\<close>

text \<open>
  \<open>collections.deque(maxlen=M).append(x)\<close>: the element goes to the right end,
  and when the length then exceeds \<open>M\<close> the leftmost element is removed.
\<close>

definition deque_append :: "nat \<Rightarrow> 'a list \<Rightarrow> 'a \<Rightarrow> 'a list" where
  "deque_append maxlen dq x =
     (let dq' = dq @ [x] in if length dq' > maxlen then tl dq' else dq')"

record generation_event =
  ev_timestamp :: real
  ev_size_bytes :: int
  ev_generation_time :: real
  ev_throughput_mbps :: real
  ev_source :: string

record source_stat =
  requests :: int
  bytes_generated :: int
  total_time :: real
  average_throughput_mbps :: real
  error_count :: int

definition source_stat_default :: source_stat where
  \<comment> \<open>the factory of the \<open>defaultdict\<close>\<close>
  "source_stat_default =
     \<lparr>requests = 0, bytes_generated = 0, total_time = 0,
      average_throughput_mbps = 0, error_count = 0\<rparr>"

record performance_monitor =
  history_size :: nat
  generation_history :: "generation_event list"
  throughput_history :: "real list"
  latency_history :: "real list"
  request_timestamps :: "real list"
  source_stats :: "string \<rightharpoonup> source_stat"
  metrics_total_bytes_generated :: int
  metrics_total_requests :: int
  last_request_time :: "real option"

definition monitor_init :: "nat \<Rightarrow> performance_monitor" where
  "monitor_init M =
     \<lparr>history_size = M, generation_history = [], throughput_history = [],
      latency_history = [], request_timestamps = [], source_stats = Map.empty,
      metrics_total_bytes_generated = 0, metrics_total_requests = 0,
      last_request_time = None\<rparr>"

text \<open>
  The two divisions of the function have an \<open>int\<close> on the left and a \<open>float\<close>
  on the right. Python converts the \<open>int\<close> to a double first and raises
  \<open>OverflowError\<close> when it rounds beyond the largest double, that is from
  \<open>2^1024 - 2^970\<close> on in absolute value. Float arithmetic itself does not
  raise; it is done in the reals here, rounding left out.
\<close>

datatype py_error = OverflowError

definition in_float_range :: "int \<Rightarrow> bool" where
  "in_float_range i = (\<bar>i\<bar> < 2 ^ 1024 - 2 ^ 970)"

definition int_to_float :: "int \<Rightarrow> py_error + real" where
  "int_to_float i = (if in_float_range i then Inr (real_of_int i) else Inl OverflowError)"

definition throughput_of :: "int \<Rightarrow> real \<Rightarrow> py_error + real" where
  \<comment> \<open>\<open>(size_bytes * 8) / (generation_time * 1_000_000) if generation_time > 0 else 0\<close>\<close>
  "throughput_of size_bytes generation_time =
     (if generation_time > 0
      then (case int_to_float (size_bytes * 8) of
              Inl e \<Rightarrow> Inl e
            | Inr x \<Rightarrow> Inr (x / (generation_time * 1000000)))
      else Inr 0)"

definition event_of :: "real \<Rightarrow> int \<Rightarrow> real \<Rightarrow> real \<Rightarrow> string \<Rightarrow> generation_event" where
  "event_of timestamp size_bytes generation_time throughput_mbps source =
     \<lparr>ev_timestamp = timestamp, ev_size_bytes = size_bytes,
      ev_generation_time = generation_time,
      ev_throughput_mbps = throughput_mbps,
      ev_source = source\<rparr>"

text \<open>
  \<open>record_generation\<close>; \<open>timestamp\<close> is the \<open>datetime.utcnow()\<close> of the call.
  The result is the exception that left the function, if any, and the state the
  call leaves behind. Line 93 computes the throughput before the lock is taken:
  an exception there leaves the monitor as it was. Inside the lock the four
  appends and the updates of the source's entry come first (the entry is
  mutated in place, the \<open>defaultdict\<close> having created it at the lookup); the
  division of lines 116 to 118 can raise after them, before the global counters.
\<close>

definition record_generation ::
  "real \<Rightarrow> int \<Rightarrow> real \<Rightarrow> string \<Rightarrow> performance_monitor
     \<Rightarrow> py_error option \<times> performance_monitor" where
  "record_generation timestamp size_bytes generation_time source s =
     (case throughput_of size_bytes generation_time of
        Inl e \<Rightarrow> (Some e, s)
      | Inr throughput_mbps \<Rightarrow>
          let stats = (case source_stats s source of Some st \<Rightarrow> st
                       | None \<Rightarrow> source_stat_default);
              stats = stats\<lparr>requests := requests stats + 1,
                            bytes_generated := bytes_generated stats + size_bytes,
                            total_time := total_time stats + generation_time\<rparr>;
              s = s\<lparr>generation_history :=
                      deque_append (history_size s) (generation_history s)
                        (event_of timestamp size_bytes generation_time throughput_mbps source),
                    throughput_history :=
                      deque_append (history_size s) (throughput_history s) throughput_mbps,
                    latency_history :=
                      deque_append (history_size s) (latency_history s)
                        (generation_time * 1000),
                    request_timestamps := deque_append 60 (request_timestamps s) timestamp,
                    source_stats := (source_stats s)(source \<mapsto> stats)\<rparr>;
              counted = s\<lparr>metrics_total_bytes_generated :=
                            metrics_total_bytes_generated s + size_bytes,
                          metrics_total_requests := metrics_total_requests s + 1,
                          last_request_time := Some timestamp\<rparr>
          in if total_time stats > 0
             then (case int_to_float (bytes_generated stats * 8) of
                     Inl e \<Rightarrow> (Some e, s)
                   | Inr x \<Rightarrow>
                       (None, counted\<lparr>source_stats := (source_stats s)(source \<mapsto>
                          stats\<lparr>average_throughput_mbps :=
                            x / (total_time stats * 1000000)\<rparr>)\<rparr>))
             else (None, counted))"

text \<open>
  The two places where a call can raise, as conditions on the call and the
  state it meets.
\<close>

definition raises_before_recording :: "int \<Rightarrow> real \<Rightarrow> bool" where
  "raises_before_recording size_bytes generation_time =
     (generation_time > 0 \<and> \<not> in_float_range (size_bytes * 8))"

definition raises_after_appending ::
  "int \<Rightarrow> real \<Rightarrow> string \<Rightarrow> performance_monitor \<Rightarrow> bool" where
  "raises_after_appending size_bytes generation_time source s =
     (let stats = (case source_stats s source of Some st \<Rightarrow> st
                   | None \<Rightarrow> source_stat_default)
      in total_time stats + generation_time > 0
         \<and> \<not> in_float_range ((bytes_generated stats + size_bytes) * 8))"

text \<open>
  A sequence of calls, each with its timestamp, on a monitor; a call that
  raises leaves its state to the next one. What a call appends to the three
  histories, if it gets to the appends, is its insertion.
\<close>

type_synonym generation_call = "real \<times> int \<times> real \<times> string"

fun record_all :: "performance_monitor \<Rightarrow> generation_call list \<Rightarrow> performance_monitor" where
  "record_all s [] = s"
| "record_all s ((timestamp, size_bytes, generation_time, source) # calls) =
     record_all (snd (record_generation timestamp size_bytes generation_time source s)) calls"

fun call_insertion :: "generation_call \<Rightarrow> (generation_event \<times> real \<times> real) option" where
  "call_insertion (timestamp, size_bytes, generation_time, source) =
     (case throughput_of size_bytes generation_time of
        Inl e \<Rightarrow> None
      | Inr throughput_mbps \<Rightarrow>
          Some (event_of timestamp size_bytes generation_time throughput_mbps source,
                throughput_mbps, generation_time * 1000))"


fun insertions :: "generation_call list \<Rightarrow> (generation_event \<times> real \<times> real) list" where
  "insertions [] = []"
| "insertions (c # calls) =
     (case call_insertion c of None \<Rightarrow> insertions calls
      | Some ins \<Rightarrow> ins # insertions calls)"

section \<open>Quick metrics: \<open>QuantumRandomGenerator.get_quality_metrics\<close>\<close>

text \<open>
  The function computes with NumPy floats. Under NumPy's default error handling
  a division by zero does not raise: it gives \<open>nan\<close> for \<open>0 / 0\<close> and an infinity
  otherwise, with a warning. The values are reals extended by these three;
  rounding and the sign of zero are not modelled.
\<close>

datatype npfloat = Finite real | PosInf | NegInf | NaN

definition np_true_divide :: "real \<Rightarrow> real \<Rightarrow> npfloat" where
  "np_true_divide a b =
     (if b = 0 then (if a = 0 then NaN else if a > 0 then PosInf else NegInf)
      else Finite (a / b))"

fun np_greater_zero :: "npfloat \<Rightarrow> bool" where
  \<comment> \<open>\<open>p > 0\<close>; every comparison with \<open>nan\<close> is false\<close>
  "np_greater_zero (Finite x) = (x > 0)"
| "np_greater_zero PosInf = True"
| "np_greater_zero NegInf = False"
| "np_greater_zero NaN = False"

fun np_add :: "npfloat \<Rightarrow> npfloat \<Rightarrow> npfloat" where
  "np_add (Finite a) (Finite b) = Finite (a + b)"
| "np_add NaN _ = NaN"
| "np_add _ NaN = NaN"
| "np_add PosInf NegInf = NaN"
| "np_add NegInf PosInf = NaN"
| "np_add PosInf _ = PosInf"
| "np_add _ PosInf = PosInf"
| "np_add NegInf _ = NegInf"
| "np_add _ NegInf = NegInf"

fun np_negative :: "npfloat \<Rightarrow> npfloat" where
  "np_negative (Finite a) = Finite (- a)"
| "np_negative PosInf = NegInf"
| "np_negative NegInf = PosInf"
| "np_negative NaN = NaN"

fun p_log2_p :: "npfloat \<Rightarrow> npfloat" where
  \<comment> \<open>\<open>p * np.log2(p)\<close>, used on the entries with \<open>p > 0\<close> only\<close>
  "p_log2_p (Finite p) = Finite (p * log 2 p)"
| "p_log2_p PosInf = PosInf"
| "p_log2_p _ = NaN"

definition np_sum :: "npfloat list \<Rightarrow> npfloat" where
  "np_sum xs = foldl np_add (Finite 0) xs"

fun uniformity :: "npfloat \<Rightarrow> npfloat" where
  \<comment> \<open>\<open>1.0 - abs(ones_ratio - 0.5) * 2\<close>\<close>
  "uniformity (Finite r) = Finite (1 - \<bar>r - 0.5\<bar> * 2)"
| "uniformity NaN = NaN"
| "uniformity _ = NegInf"

definition bincount :: "byte list \<Rightarrow> nat list" where
  \<comment> \<open>\<open>np.bincount(data_array, minlength=256)\<close>\<close>
  "bincount data = map (\<lambda>v. count_list data (of_nat v)) [0..<256]"

record quality_metrics =
  qm_entropy :: npfloat
  qm_ones_ratio :: npfloat
  qm_uniformity_score :: npfloat

definition quality_fallback :: quality_metrics where
  \<comment> \<open>the value of the \<open>except\<close> branch\<close>
  "quality_fallback =
     \<lparr>qm_entropy = Finite 0, qm_ones_ratio = Finite 0.5, qm_uniformity_score = Finite 0\<rparr>"

text \<open>
  No statement of the \<open>try\<close> block raises on a byte string by itself; as for the
  debiaser, \<open>fault\<close> stands for an exception from the environment, which the
  \<open>except\<close> branch turns into the fallback value.
\<close>

definition get_quality_metrics :: "bool \<Rightarrow> byte list \<Rightarrow> quality_metrics" where
  "get_quality_metrics fault data =
     (if fault then quality_fallback
      else
        let counts = bincount data;
            probabilities = map (\<lambda>c. np_true_divide (real c) (real (length data))) counts;
            probabilities = filter np_greater_zero probabilities;
            entropy = np_negative (np_sum (map p_log2_p probabilities));
            bits = unpackbits data;
            ones_ratio = np_true_divide (real (length (filter id bits))) (real (length bits))
        in \<lparr>qm_entropy = entropy, qm_ones_ratio = ones_ratio,
             qm_uniformity_score = uniformity ones_ratio\<rparr>)"


section \<open>Properties of the debiaser\<close>

lemma scan_loop_pairs:
  "scan_loop bits i acc = acc @ von_neumann_pairs (drop i bits)"
proof (induction bits i acc rule: scan_loop.induct)
  case (1 bits i acc)
  show ?case
  proof (cases "int i < int (length bits) - 1")
    case True
    then have lt: "i + 1 < length bits" by simp
    then have d: "drop i bits = bits ! i # bits ! (i + 1) # drop (i + 2) bits"
      by (metis Cons_nth_drop_Suc Suc_eq_plus1 add_2_eq_Suc' add_lessD1)
    show ?thesis
      apply (subst scan_loop.simps)
      using True 1 [OF True refl] d
      by (cases "bits ! i"; cases "bits ! (i + 1)") (simp_all add: Let_def)
  next
    case False
    then have "length (drop i bits) \<le> 1" by simp
    then have "von_neumann_pairs (drop i bits) = []"
      by (cases "drop i bits" rule: von_neumann_pairs.cases) simp_all
    with False show ?thesis
      by (subst scan_loop.simps) simp
  qed
qed

lemma pad_loop_eq: "pad_loop bs = pad_to_byte_boundary bs"
proof (induction bs rule: pad_loop.induct)
  case (1 bs)
  show ?case
  proof (cases "length bs mod 8 \<noteq> 0")
    case True
    define m where "m = length bs mod 8"
    have m: "0 < m" "m < 8" using True by (simp_all add: m_def)
    have s: "Suc (length bs) mod 8 = (if Suc m = 8 then 0 else Suc m)"
      unfolding m_def by (rule mod_Suc)
    have "(8 - m) mod 8 = Suc ((8 - Suc (length bs) mod 8) mod 8)"
      using m s by (auto split: if_splits)
    then have "pad_to_byte_boundary (bs @ [False]) = pad_to_byte_boundary bs"
      by (simp add: pad_to_byte_boundary_def m_def replicate_app_Cons_same del: mod_Suc)
    with 1 [OF True] True show ?thesis
      by (subst pad_loop.simps) simp
  next
    case False
    then show ?thesis
      by (subst pad_loop.simps) (simp add: pad_to_byte_boundary_def)
  qed
qed

lemma length_bits_of_byte: "length (bits_of_byte w) = 8"
  by (simp add: bits_of_byte_def)

lemma length_unpackbits: "length (unpackbits data) = 8 * length data"
  by (induction data) (simp_all add: unpackbits_def length_bits_of_byte)

lemma length_von_neumann_pairs: "2 * length (von_neumann_pairs bs) \<le> length bs"
  by (induction bs rule: von_neumann_pairs.induct) simp_all

lemma length_packbits: "length (packbits bs) = (length bs + 7) div 8"
proof (induction bs rule: packbits.induct)
  case 1
  show ?case by simp
next
  case (2 b bs)
  have "(length bs - 7 + 7) div 8 = length bs div 8"
  proof (cases "7 \<le> length bs")
    case True
    then show ?thesis by simp
  next
    case False
    then have "length bs < 8" "length bs - 7 = 0" by simp_all
    then show ?thesis by simp
  qed
  moreover have "(length (b # bs) + 7) div 8 = Suc (length bs div 8)"
    by simp
  ultimately show ?case using 2 by simp
qed

lemma pad_length_multiple: "length (pad_to_byte_boundary bs) mod 8 = 0"
proof -
  define m where "m = length bs mod 8"
  have m: "m < 8" by (simp add: m_def)
  have "(length bs + (8 - m) mod 8) mod 8 = (m + (8 - m) mod 8) mod 8"
    unfolding m_def by (simp add: mod_add_left_eq)
  also have "\<dots> = 0"
  proof (cases "m = 0")
    case True
    then show ?thesis by simp
  next
    case False
    with m have "(8 - m) mod 8 = 8 - m" "m + (8 - m) = 8" by simp_all
    then show ?thesis by simp
  qed
  finally show ?thesis
    by (simp add: pad_to_byte_boundary_def m_def)
qed

lemma length_packbits_pad:
  "length (packbits (pad_to_byte_boundary bs)) = (length bs + 7) div 8"
proof -
  define q where "q = length bs div 8"
  define m where "m = length bs mod 8"
  have len: "length bs = 8 * q + m" and m: "m < 8"
    by (simp_all add: q_def m_def)
  have r: "(length bs + 7) div 8 = (if m = 0 then q else Suc q)"
    by (rule div_nat_eqI) (use len m in \<open>auto split: if_splits\<close>)
  have L: "length (pad_to_byte_boundary bs) = (if m = 0 then 8 * q else 8 * Suc q)"
  proof (cases "m = 0")
    case True
    then show ?thesis using len by (simp add: pad_to_byte_boundary_def m_def [symmetric])
  next
    case False
    with m have "(8 - m) mod 8 = 8 - m" by simp
    with False m len show ?thesis
      by (simp add: pad_to_byte_boundary_def m_def [symmetric])
  qed
  have "(length (pad_to_byte_boundary bs) + 7) div 8 = (if m = 0 then q else Suc q)"
    by (rule div_nat_eqI) (use L in \<open>auto split: if_splits\<close>)
  with r show ?thesis by (simp add: length_packbits)
qed

lemma pad_to_byte_boundary_Nil_iff: "pad_to_byte_boundary bs = [] \<longleftrightarrow> bs = []"
  by (auto simp: pad_to_byte_boundary_def)

lemma scan_loop_start: "scan_loop bits 0 [] = von_neumann_pairs bits"
  by (simp add: scan_loop_pairs)

lemma apply_debiasing_no_fault:
  "apply_debiasing False data =
     (if von_neumann_pairs (unpackbits data) \<noteq> [] then von_neumann_reference data
      else take (length data div 2) data)"
  by (simp add: apply_debiasing_def von_neumann_reference_def Let_def
      scan_loop_start pad_loop_eq pad_to_byte_boundary_Nil_iff)

text \<open>
  Claim C4. On every byte string for which the scan emits at least one bit,
  \<open>_apply_debiasing\<close> is the von Neumann transform of the specification:
  unpack most significant bit first, map non-overlapping pairs, drop a trailing
  unpaired bit, pad with zero bits to a multiple of 8, repack.
\<close>

theorem debias_refines_von_neumann:
  assumes "scan_loop (unpackbits data) 0 [] \<noteq> []"
  shows "apply_debiasing False data = von_neumann_reference data"
  using assms by (simp add: apply_debiasing_no_fault scan_loop_start)

lemma bits_of_byte_1B:
  "bits_of_byte 0x1B = [False, False, False, True, True, False, True, True]"
  by (simp add: bits_of_byte_def)

lemma bits_of_byte_E4:
  "bits_of_byte 0xE4 = [True, True, True, False, False, True, False, False]"
  by (simp add: bits_of_byte_def)

lemma replicate4: "replicate 4 x = [x, x, x, x]"
  by (simp add: numeral_eq_Suc)

theorem debias_refines_von_neumann_witness:
  "scan_loop (unpackbits [0x1B, 0xE4]) 0 [] \<noteq> []
   \<and> apply_debiasing False [0x1B, 0xE4] = von_neumann_reference [0x1B, 0xE4]
   \<and> von_neumann_reference [0x1B, 0xE4] = [0x60]"
proof -
  have e: "von_neumann_pairs (unpackbits [0x1B, 0xE4]) = [False, True, True, False]"
    by (simp add: unpackbits_def bits_of_byte_1B bits_of_byte_E4)
  have h: "scan_loop (unpackbits [0x1B, 0xE4]) 0 [] \<noteq> []"
    by (simp add: scan_loop_start e)
  have "von_neumann_reference [0x1B, 0xE4] = [0x60]"
    by (simp add: von_neumann_reference_def e pad_to_byte_boundary_def replicate4
        byte_of_bits_def)
  with h debias_refines_von_neumann [OF h] show ?thesis by simp
qed

lemma length_apply_debiasing_half:
  "2 * length (apply_debiasing False data) \<le> length data + 1"
proof -
  have "2 * length (von_neumann_pairs (unpackbits data)) \<le> 8 * length data"
    using length_von_neumann_pairs [of "unpackbits data"] by (simp add: length_unpackbits)
  then have "2 * ((length (von_neumann_pairs (unpackbits data)) + 7) div 8) \<le> length data + 1"
    by simp
  then have r: "2 * length (von_neumann_reference data) \<le> length data + 1"
    by (simp add: von_neumann_reference_def length_packbits_pad)
  show ?thesis
  proof (cases "von_neumann_pairs (unpackbits data) = []")
    case True
    then show ?thesis by (simp add: apply_debiasing_no_fault)
  next
    case False
    with r show ?thesis by (simp add: apply_debiasing_no_fault)
  qed
qed

text \<open>
  Claim C5. Debiasing is never expansive: the result is at most as long as the
  input, on the transform path, on the fallback for zero emitted bits and on
  the exception path.
\<close>

theorem debias_never_expansive:
  "length (apply_debiasing fault data) \<le> length data"
proof (cases fault)
  case True
  then show ?thesis by (simp add: apply_debiasing_def)
next
  case False
  have "2 * length (von_neumann_pairs (unpackbits data)) \<le> 8 * length data"
    using length_von_neumann_pairs [of "unpackbits data"] by (simp add: length_unpackbits)
  then have "(length (von_neumann_pairs (unpackbits data)) + 7) div 8 \<le> length data"
    by simp
  then have "length (von_neumann_reference data) \<le> length data"
    by (simp add: von_neumann_reference_def length_packbits_pad)
  with False show ?thesis by (simp add: apply_debiasing_no_fault)
qed

text \<open>
  Claim C6. When the scan emits no bit, \<open>_apply_debiasing\<close> returns the first
  \<open>len(data) // 2\<close> bytes of its input, unchanged.
\<close>

theorem debias_degenerate_returns_first_half:
  assumes "scan_loop (unpackbits data) 0 [] = []"
  shows "apply_debiasing False data = take (length data div 2) data"
  using assms by (simp add: apply_debiasing_no_fault scan_loop_start)

lemma bits_of_byte_00: "bits_of_byte 0x00 = replicate 8 False"
  by (simp add: bits_of_byte_def numeral_eq_Suc)

lemma bits_of_byte_FF: "bits_of_byte 0xFF = replicate 8 True"
  by (simp add: bits_of_byte_def numeral_eq_Suc)

theorem debias_degenerate_returns_first_half_witness:
  "scan_loop (unpackbits [0xFF, 0x00, 0xC3, 0x3C]) 0 [] = []
   \<and> apply_debiasing False [0xFF, 0x00, 0xC3, 0x3C] = [0xFF, 0x00]"
proof -
  have "bits_of_byte 0xC3 = [True, True, False, False, False, False, True, True]"
    and "bits_of_byte 0x3C = [False, False, True, True, True, True, False, False]"
    by (simp_all add: bits_of_byte_def)
  then have h: "scan_loop (unpackbits [0xFF, 0x00, 0xC3, 0x3C]) 0 [] = []"
    by (simp add: scan_loop_start unpackbits_def bits_of_byte_00 bits_of_byte_FF numeral_eq_Suc)
  with debias_degenerate_returns_first_half [OF h] show ?thesis by simp
qed

section \<open>Properties of the entropy buffer\<close>

lemma length_generate_quantum_noise:
  assumes "draw_ok n d"
  shows "int (length (generate_quantum_noise n d)) \<le> n"
proof (cases d)
  case (Perturbed raw fault)
  show ?thesis
  proof (cases fault)
    case True
    with Perturbed assms show ?thesis by (simp add: draw_ok_def apply_debiasing_def)
  next
    case False
    have "2 * length (apply_debiasing False raw) \<le> length raw + 1"
      by (rule length_apply_debiasing_half)
    then have "length (apply_debiasing False raw) \<le> length raw" by simp
    with False Perturbed assms show ?thesis by (simp add: draw_ok_def)
  qed
next
  case (Unperturbed base)
  with assms show ?thesis by (simp add: draw_ok_def)
qed

lemma length_slice_to: "0 \<le> n \<Longrightarrow> n \<le> int (length xs) \<Longrightarrow> int (length (slice_to xs n)) = n"
  by (simp add: slice_to_def)

lemma length_del_slice_to: "length (del_slice_to xs n) \<le> length xs"
  by (simp add: del_slice_to_def)

lemma generate_random_bytes_buffer:
  "random_buffer (snd (generate_random_bytes d fallback n s)) =
     (if int (length (random_buffer s)) \<ge> n then del_slice_to (random_buffer s) n
      else random_buffer s)"
  by (simp add: generate_random_bytes_def Let_def)

lemma generate_random_bytes_buffer_size:
  "buffer_size (snd (generate_random_bytes d fallback n s)) = buffer_size s"
  by (simp add: generate_random_bytes_def Let_def split: prod.splits)

lemma generate_random_bytes_result:
  "fst (generate_random_bytes d fallback n s) =
     (if target_throughput_mbps s = 0 then fallback
      else if int (length (random_buffer s)) \<ge> n then slice_to (random_buffer s) n
      else generate_quantum_noise n d)"
  by (simp add: generate_random_bytes_def Let_def)

lemma buffered_path_exact:
  assumes "0 \<le> n" "n \<le> int (length (random_buffer s))" "target_throughput_mbps s \<noteq> 0"
  shows "int (length (fst (generate_random_bytes d fallback n s))) = n"
  using assms by (simp add: generate_random_bytes_result length_slice_to)

lemma on_demand_path_short:
  assumes "int (length (random_buffer s)) < n" "target_throughput_mbps s \<noteq> 0"
    and "draw_ok n (Perturbed raw False)" "2 \<le> n"
  shows "int (length (fst (generate_random_bytes (Perturbed raw False) fallback n s))) < n"
proof -
  have "2 * length (apply_debiasing False raw) \<le> length raw + 1"
    by (rule length_apply_debiasing_half)
  moreover have "int (length raw) = n" using assms(3) by (simp add: draw_ok_def)
  ultimately have "int (length (apply_debiasing False raw)) < n"
    using assms(4) by linarith
  with assms(1,2) show ?thesis by (simp add: generate_random_bytes_result)
qed

lemma bits_of_byte_55:
  "bits_of_byte 0x55 = [False, True, False, True, False, True, False, True]"
  by (simp add: bits_of_byte_def)

text \<open>
  Claim C1: \<open>generate_random_bytes(size)\<close> returns exactly \<open>size\<close> bytes in
  every buffer state. The buffered path does (\<open>buffered_path_exact\<close>); the
  on-demand path returns the debiased noise, which is shorter than \<open>size\<close> for
  every \<open>size \<ge> 2\<close> (\<open>on_demand_path_short\<close>). Evaluated here on the empty
  buffer, \<open>size = 2\<close> and the clipped noise bytes \<open>0x55 0x55\<close>: the call returns
  the single byte \<open>0x00\<close>.
\<close>

theorem generate_random_bytes_on_demand_too_short:
  "draw_ok 2 (Perturbed [0x55, 0x55] False)
   \<and> random_buffer (fpga_init 50) = []
   \<and> fst (generate_random_bytes (Perturbed [0x55, 0x55] False) [0xAA, 0xBB] 2 (fpga_init 50))
       = [0x00]"
proof -
  have e: "von_neumann_pairs (unpackbits [0x55, 0x55]) = replicate 8 False"
    by (simp add: unpackbits_def bits_of_byte_55 numeral_eq_Suc)
  have "pad_to_byte_boundary (replicate 8 False) = replicate 8 False"
    by (simp add: pad_to_byte_boundary_def)
  then have "von_neumann_reference [0x55, 0x55] = [0x00]"
    by (simp add: von_neumann_reference_def e) (simp add: numeral_eq_Suc byte_of_bits_def)
  moreover have "von_neumann_pairs (unpackbits [0x55, 0x55]) \<noteq> []"
    by (simp add: e)
  ultimately show ?thesis
    by (simp add: draw_ok_def generate_random_bytes_result apply_debiasing_no_fault fpga_init_def)
qed

text \<open>
  Claim C8. A call of \<open>generate_random_bytes(size)\<close> on a buffer that holds fewer
  than \<open>size\<close> bytes leaves the buffer as it was.
\<close>

theorem on_demand_leaves_buffer_unchanged:
  assumes "int (length (random_buffer s)) < n"
  shows "random_buffer (snd (generate_random_bytes d fallback n s)) = random_buffer s"
  using assms by (simp add: generate_random_bytes_buffer)

theorem on_demand_leaves_buffer_unchanged_witness:
  "int (length (random_buffer (fpga_init 50\<lparr>random_buffer := [0x01, 0x02, 0x03]\<rparr>))) < 4
   \<and> random_buffer (snd (generate_random_bytes (Perturbed [0x1B, 0xE4, 0x55, 0x55] False) []
        4 (fpga_init 50\<lparr>random_buffer := [0x01, 0x02, 0x03]\<rparr>))) = [0x01, 0x02, 0x03]"
proof -
  have h: "int (length (random_buffer (fpga_init 50\<lparr>random_buffer := [0x01, 0x02, 0x03]\<rparr>))) < 4"
    by simp
  from on_demand_leaves_buffer_unchanged [OF h] h show ?thesis by simp
qed

lemma von_neumann_pairs_zeros: "von_neumann_pairs (replicate n False) = []"
proof (induction n rule: less_induct)
  case (less n)
  show ?case
  proof (cases n)
    case 0
    then show ?thesis by simp
  next
    case (Suc m)
    show ?thesis
    proof (cases m)
      case 0
      with Suc show ?thesis by simp
    next
      case (Suc k)
      with \<open>n = Suc m\<close> less [of k] show ?thesis by simp
    qed
  qed
qed

lemma unpackbits_zeros: "unpackbits (replicate n 0) = replicate (8 * n) False"
proof (induction n)
  case 0
  show ?case by (simp add: unpackbits_def)
next
  case (Suc n)
  have "unpackbits (replicate (Suc n) 0) = bits_of_byte 0 @ unpackbits (replicate n 0)"
    by (simp add: unpackbits_def)
  also have "\<dots> = replicate 8 False @ replicate (8 * n) False"
    by (simp add: Suc bits_of_byte_00)
  also have "\<dots> = replicate (8 * Suc n) False"
    by (simp add: replicate_add [symmetric])
  finally show ?case .
qed

lemma apply_debiasing_zeros:
  "apply_debiasing False (replicate n 0) = replicate (n div 2) 0"
  by (simp add: apply_debiasing_no_fault unpackbits_zeros von_neumann_pairs_zeros)

lemma draw_ok_zero_chunk: "draw_ok 1024 zero_chunk"
  by (simp add: draw_ok_def zero_chunk_def)

lemma noise_zero_chunk: "generate_quantum_noise 1024 zero_chunk = replicate 512 0"
  by (simp add: zero_chunk_def apply_debiasing_zeros)

lemma reachable_fills:
  "reachable s \<Longrightarrow> reachable ((buffer_worker_step zero_chunk ^^ k) s)"
  by (induction k) (simp_all add: reachable.fill draw_ok_zero_chunk)

lemma fill_zero_chunk:
  assumes "random_buffer t = replicate j 0" and "j < buffer_size t"
  shows "random_buffer (buffer_worker_step zero_chunk t) = replicate (j + 512) 0"
    and "buffer_size (buffer_worker_step zero_chunk t) = buffer_size t"
  using assms
  by (simp_all add: buffer_worker_step_def noise_zero_chunk replicate_add [symmetric])

lemma fills_buffer:
  assumes "random_buffer s = replicate m 0" and "m + 512 * k < buffer_size s + 512"
  shows "random_buffer ((buffer_worker_step zero_chunk ^^ k) s) = replicate (m + 512 * k) 0
         \<and> buffer_size ((buffer_worker_step zero_chunk ^^ k) s) = buffer_size s"
  using assms(2)
proof (induction k)
  case 0
  show ?case by (simp add: assms(1))
next
  case (Suc k)
  define t where "t = (buffer_worker_step zero_chunk ^^ k) s"
  from Suc have ih: "random_buffer t = replicate (m + 512 * k) 0" "buffer_size t = buffer_size s"
    by (simp_all add: t_def)
  from Suc.prems ih have lt: "m + 512 * k < buffer_size t" by simp
  have "(buffer_worker_step zero_chunk ^^ Suc k) s = buffer_worker_step zero_chunk t"
    by (simp add: t_def)
  moreover have "m + 512 * k + 512 = m + 512 * Suc k" by simp
  ultimately show ?case
    using fill_zero_chunk [OF ih(1) lt] ih(2) by (simp only:)
qed

lemma buffer_worker_step_buffer_size: "buffer_size (buffer_worker_step d s) = buffer_size s"
  by (simp add: buffer_worker_step_def)

lemma buffer_worker_step_bound:
  assumes "draw_ok 1024 d" and "length (random_buffer s) < buffer_size s + 1024"
  shows "length (random_buffer (buffer_worker_step d s)) < buffer_size s + 1024"
proof (cases "length (random_buffer s) < buffer_size s")
  case True
  have "length (generate_quantum_noise 1024 d) \<le> 1024"
    using length_generate_quantum_noise [OF assms(1)] by simp
  with True show ?thesis by (simp add: buffer_worker_step_def)
next
  case False
  with assms(2) show ?thesis by (simp add: buffer_worker_step_def)
qed

lemma take_step_bound:
  "length (random_buffer (snd (generate_random_bytes d fallback n s))) \<le> length (random_buffer s)"
  by (simp add: generate_random_bytes_buffer length_del_slice_to)

lemma overfull_buffer:
  "random_buffer overfull = replicate 1048577 0 \<and> buffer_size overfull = 1048576"
proof -
  define s1 where "s1 = buffer_worker_step zero_chunk (fpga_init 50)"
  define s2 where "s2 = snd (generate_random_bytes zero_chunk [] 511 s1)"
  have s1: "random_buffer s1 = replicate 512 0" "buffer_size s1 = 1048576"
    by (simp_all add: s1_def buffer_worker_step_def fpga_init_def noise_zero_chunk)
  have s2: "random_buffer s2 = replicate 1 0" "buffer_size s2 = 1048576"
    by (simp_all add: s2_def generate_random_bytes_buffer generate_random_bytes_buffer_size
        s1 del_slice_to_def)
  from fills_buffer [of s2 1 2048] s2 show ?thesis
    by (simp add: overfull_def s1_def s2_def)
qed

lemma reachable_overfull: "reachable overfull"
  unfolding overfull_def
  by (intro reachable_fills reachable.take reachable.fill reachable.start draw_ok_zero_chunk)

text \<open>
  Claim C3 as stated, that the fill level never exceeds \<open>buffer_size\<close>, fails:
  the producer tests \<open>len(self.random_buffer) < self.buffer_size\<close> and then appends
  a whole chunk. The state \<open>overfull\<close> is reachable and holds one byte more than
  the capacity.
\<close>

theorem buffer_exceeds_capacity:
  "reachable overfull \<and> \<not> length (random_buffer overfull) \<le> buffer_size overfull"
  using reachable_overfull overfull_buffer by simp

text \<open>
  Claim C3, amended: in every reachable state the fill level is below
  \<open>buffer_size + 1024\<close>, a fill iteration running only below \<open>buffer_size\<close> and
  appending at most 1024 bytes.
\<close>

theorem buffer_level_below_capacity_plus_chunk:
  assumes "reachable s"
  shows "length (random_buffer s) < buffer_size s + 1024"
  using assms
proof (induction rule: reachable.induct)
  case (start mbps)
  show ?case by (simp add: fpga_init_def)
next
  case (fill s d)
  then show ?case
    using buffer_worker_step_bound [of d s] by (simp add: buffer_worker_step_buffer_size)
next
  case (take s d fallback n)
  then show ?case
    using take_step_bound [of d fallback n s]
    by (simp add: generate_random_bytes_buffer_size)
qed

theorem buffer_level_below_capacity_plus_chunk_witness:
  "reachable overfull
   \<and> length (random_buffer overfull) < buffer_size overfull + 1024
   \<and> length (random_buffer overfull) = buffer_size overfull + 1"
  using buffer_level_below_capacity_plus_chunk [OF reachable_overfull]
    reachable_overfull overfull_buffer by simp

section \<open>Properties of the validation aggregate\<close>

lemma subtest_result_dict: "isinstance_dict (subtest_result t)"
  by (cases t) simp_all

lemma subtest_result_passed:
  "truthy (dict_get (subtest_result t) ''passed'' (PyBool False)) \<longleftrightarrow> t = Completed True"
  by (cases t) simp_all

lemma overall_assessment_subtests:
  "overall_assessment (map subtest_result ts) =
     (let passed = length (filter (\<lambda>t. t = Completed True) ts); total = length ts
      in \<lparr>passed_tests = passed, total_tests = total,
          quality_score = (if total > 0 then real passed / real total else 0),
          assessment = (if real passed \<ge> real total * 0.8 then ''GOOD''
                        else if real passed \<ge> real total * 0.6 then ''FAIR''
                        else ''POOR'')\<rparr>)"
  by (simp add: overall_assessment_def Let_def filter_map o_def
      subtest_result_dict subtest_result_passed)

text \<open>
  Claim C2 as stated, that the sub-tests which reported an error marker are left
  out of the denominator of \<open>quality_score\<close>, fails: an error marker is a
  dictionary too, so \<open>isinstance(t, dict)\<close> keeps it in \<open>total_tests\<close>. With
  three sub-tests passed, one failed and the serial correlation reporting its
  error (a one-byte input), the code gives 3/5 where the claim says 3/4.
\<close>

theorem quality_score_counts_errored_subtests:
  "quality_score (validate_randomness (Completed True) (Completed True) (Completed True)
      (Completed False) (Errored ''Insufficient data for correlation test''))
   \<noteq> spec_quality_score [Completed True, Completed True, Completed True,
      Completed False, Errored ''Insufficient data for correlation test'']"
proof -
  have "quality_score (validate_randomness (Completed True) (Completed True) (Completed True)
      (Completed False) (Errored ''Insufficient data for correlation test'')) = 3 / 5"
    unfolding validate_randomness_def overall_assessment_subtests by (simp add: Let_def)
  moreover have "spec_quality_score [Completed True, Completed True, Completed True,
      Completed False, Errored ''Insufficient data for correlation test''] = 3 / 4"
    by (simp add: spec_quality_score_def)
  ultimately show ?thesis by simp
qed

text \<open>
  Claim C2, amended: \<open>quality_score\<close> is the number of passed sub-tests divided
  by the number of sub-test results, which is always five (a sub-test that
  reported an error marker stays in the denominator and counts as not passed);
  the label is GOOD for a score of at least 0.8, FAIR for at least 0.6, else
  POOR.
\<close>

theorem quality_score_over_five_subtests:
  "passed_tests (validate_randomness t1 t2 t3 t4 t5)
      = length (filter (\<lambda>t. t = Completed True) [t1, t2, t3, t4, t5])
   \<and> total_tests (validate_randomness t1 t2 t3 t4 t5) = 5
   \<and> quality_score (validate_randomness t1 t2 t3 t4 t5)
      = real (passed_tests (validate_randomness t1 t2 t3 t4 t5)) / 5
   \<and> assessment (validate_randomness t1 t2 t3 t4 t5)
      = spec_label (quality_score (validate_randomness t1 t2 t3 t4 t5))"
  unfolding validate_randomness_def overall_assessment_subtests spec_label_def Let_def
  by (simp add: field_simps)

section \<open>Properties of the metrics aggregator\<close>

lemma length_deque_append:
  "length dq \<le> M \<Longrightarrow> length (deque_append M dq x) \<le> M"
  by (auto simp: deque_append_def Let_def)

lemma tl_eq_drop1: "tl ys = drop 1 ys"
  by (simp only: One_nat_def drop_Suc drop_0)


lemma foldl_deque_append:
  "length dq \<le> M \<Longrightarrow>
   foldl (deque_append M) dq xs = drop (length dq + length xs - M) (dq @ xs)"
proof (induction xs arbitrary: dq)
  case Nil
  then show ?case by simp
next
  case (Cons x xs)
  let ?dq = "deque_append M dq x"
  have len: "length ?dq \<le> M" by (rule length_deque_append [OF Cons.prems])
  have "foldl (deque_append M) (dq) (x # xs) = foldl (deque_append M) ?dq xs" by simp
  also have "\<dots> = drop (length ?dq + length xs - M) (?dq @ xs)"
    by (rule Cons.IH [OF len])
  also have "\<dots> = drop (length dq + length (x # xs) - M) (dq @ x # xs)"
  proof (cases "length dq < M")
    case True
    then show ?thesis by (simp add: deque_append_def Let_def)
  next
    case False
    with Cons.prems have eq: "length dq = M" by simp
    define ys where "ys = dq @ x # xs"
    have dq': "?dq = drop 1 (dq @ [x])"
      unfolding tl_eq_drop1 [symmetric] using eq by (simp add: deque_append_def Let_def)
    have "drop 1 (dq @ [x]) @ xs = drop 1 ys"
      unfolding ys_def by (cases dq) simp_all
    with dq' have A: "?dq @ xs = drop 1 ys" by simp
    have B: "length ?dq = M" using eq by (simp add: dq')
    have "drop (length ?dq + length xs - M) (?dq @ xs) = drop (length xs) (drop 1 ys)"
      by (simp only: A B add_diff_cancel_left')
    also have "\<dots> = drop (length dq + length (x # xs) - M) ys"
      by (simp add: eq)
    finally show ?thesis by (simp only: ys_def)
  qed
  finally show ?case .
qed

lemma float_limit_lower: "(2::int) ^ 64 < 2 ^ 1024 - 2 ^ 970"
proof -
  have a: "(2::int) ^ 970 \<le> 2 ^ 1023" by (rule power_increasing) simp_all
  have "(2::int) ^ Suc 1023 = 2 * 2 ^ 1023" by (rule power_Suc)
  moreover have "Suc 1023 = 1024" by simp
  ultimately have b: "(2::int) ^ 1024 = 2 * 2 ^ 1023" by (simp only:)
  have c: "(2::int) ^ 64 < 2 ^ 1023" by (rule power_strict_increasing) simp_all
  define x :: int where "x = 2 ^ 1023"
  define y :: int where "y = 2 ^ 970"
  define z :: int where "z = 2 ^ 64"
  from a b c have "y \<le> x" "(2::int) ^ 1024 = 2 * x" "z < x"
    by (simp_all only: x_def y_def z_def)
  then have "z < 2 ^ 1024 - y" by linarith
  then show ?thesis by (simp only: y_def z_def)
qed

lemma in_float_range_small: "\<bar>i\<bar> \<le> 2 ^ 64 \<Longrightarrow> in_float_range i"
  unfolding in_float_range_def using float_limit_lower by linarith


lemma throughput_of_cases:
  "throughput_of n d =
     (if raises_before_recording n d then Inl OverflowError
      else Inr (if d > 0 then real_of_int (n * 8) / (d * 1000000) else 0))"
  by (simp add: throughput_of_def raises_before_recording_def int_to_float_def)


lemma record_generation_raises_after:
  assumes "\<not> raises_before_recording n d" and "raises_after_appending n d src s"
  shows "fst (record_generation ts n d src s) = Some OverflowError"
    and "metrics_total_requests (snd (record_generation ts n d src s)) = metrics_total_requests s"
  using assms
  by (simp_all add: record_generation_def throughput_of_cases raises_after_appending_def
      int_to_float_def Let_def)

lemma record_generation_history_size:
  "history_size (snd (record_generation ts n d src s)) = history_size s"
  by (simp add: record_generation_def Let_def split: sum.splits)

lemma record_generation_histories:
  "generation_history (snd (record_generation ts n d src s)) =
     (case call_insertion (ts, n, d, src) of None \<Rightarrow> generation_history s
      | Some ins \<Rightarrow> deque_append (history_size s) (generation_history s) (fst ins))"
  "throughput_history (snd (record_generation ts n d src s)) =
     (case call_insertion (ts, n, d, src) of None \<Rightarrow> throughput_history s
      | Some ins \<Rightarrow> deque_append (history_size s) (throughput_history s) (fst (snd ins)))"
  "latency_history (snd (record_generation ts n d src s)) =
     (case call_insertion (ts, n, d, src) of None \<Rightarrow> latency_history s
      | Some ins \<Rightarrow> deque_append (history_size s) (latency_history s) (snd (snd ins)))"
  by (simp_all add: record_generation_def Let_def split: sum.splits)

lemma record_all_history_size: "history_size (record_all s cs) = history_size s"
  by (induction s cs rule: record_all.induct) (simp_all add: record_generation_history_size)

lemma record_all_generation_history:
  "generation_history (record_all s cs) =
     foldl (deque_append (history_size s)) (generation_history s) (map fst (insertions cs))"
proof (induction s cs rule: record_all.induct)
  case (1 s)
  show ?case by simp
next
  case (2 s ts n d src calls)
  show ?case
    by (cases "call_insertion (ts, n, d, src)")
      (simp_all add: 2 record_generation_histories record_generation_history_size
        del: call_insertion.simps)
qed

lemma record_all_throughput_history:
  "throughput_history (record_all s cs) =
     foldl (deque_append (history_size s)) (throughput_history s)
       (map (\<lambda>ins. fst (snd ins)) (insertions cs))"
proof (induction s cs rule: record_all.induct)
  case (1 s)
  show ?case by simp
next
  case (2 s ts n d src calls)
  show ?case
    by (cases "call_insertion (ts, n, d, src)")
      (simp_all add: 2 record_generation_histories record_generation_history_size
        del: call_insertion.simps)
qed

lemma record_all_latency_history:
  "latency_history (record_all s cs) =
     foldl (deque_append (history_size s)) (latency_history s)
       (map (\<lambda>ins. snd (snd ins)) (insertions cs))"
proof (induction s cs rule: record_all.induct)
  case (1 s)
  show ?case by simp
next
  case (2 s ts n d src calls)
  show ?case
    by (cases "call_insertion (ts, n, d, src)")
      (simp_all add: 2 record_generation_histories record_generation_history_size
        del: call_insertion.simps)
qed

text \<open>
  Claim C7. After any sequence of \<open>record_generation\<close> calls on a monitor with
  \<open>history_size = M\<close>, each of \<open>generation_history\<close>, \<open>throughput_history\<close> and
  \<open>latency_history\<close> holds at most \<open>M\<close> elements, and holds the inserted elements
  without the oldest ones beyond \<open>M\<close>, in insertion order: after \<open>M + k\<close>
  insertions the oldest \<open>k\<close> are gone and the newest \<open>M\<close> remain. (A call that
  raises before the appends inserts nothing; one that raises after them has
  inserted into all three.)
\<close>

theorem rolling_windows_bounded_fifo:
  "length (generation_history (record_all (monitor_init M) cs)) \<le> M
   \<and> length (throughput_history (record_all (monitor_init M) cs)) \<le> M
   \<and> length (latency_history (record_all (monitor_init M) cs)) \<le> M
   \<and> generation_history (record_all (monitor_init M) cs)
       = drop (length (insertions cs) - M) (map fst (insertions cs))
   \<and> throughput_history (record_all (monitor_init M) cs)
       = drop (length (insertions cs) - M) (map (\<lambda>ins. fst (snd ins)) (insertions cs))
   \<and> latency_history (record_all (monitor_init M) cs)
       = drop (length (insertions cs) - M) (map (\<lambda>ins. snd (snd ins)) (insertions cs))"
proof -
  have g: "generation_history (record_all (monitor_init M) cs)
      = drop (length (insertions cs) - M) (map fst (insertions cs))"
    using foldl_deque_append [of "[]" M "map fst (insertions cs)"]
    by (simp add: record_all_generation_history monitor_init_def)
  have t: "throughput_history (record_all (monitor_init M) cs)
      = drop (length (insertions cs) - M) (map (\<lambda>ins. fst (snd ins)) (insertions cs))"
    using foldl_deque_append [of "[]" M "map (\<lambda>ins. fst (snd ins)) (insertions cs)"]
    by (simp add: record_all_throughput_history monitor_init_def)
  have l: "latency_history (record_all (monitor_init M) cs)
      = drop (length (insertions cs) - M) (map (\<lambda>ins. snd (snd ins)) (insertions cs))"
    using foldl_deque_append [of "[]" M "map (\<lambda>ins. snd (snd ins)) (insertions cs)"]
    by (simp add: record_all_latency_history monitor_init_def)
  show ?thesis unfolding g t l by simp
qed

lemma throughput_of_small:
  "\<bar>n * 8\<bar> \<le> 2 ^ 64 \<Longrightarrow> 0 < d \<Longrightarrow> throughput_of n d = Inr (real_of_int (n * 8) / (d * 1000000))"
  by (simp add: throughput_of_def int_to_float_def in_float_range_small)

theorem rolling_windows_bounded_fifo_witness:
  "throughput_history (record_all (monitor_init 2)
      [(1, 1000000, 1, ''fpga''), (2, 2000000, 1, ''anu''), (3, 3000000, 1, ''fpga'')])
     = [16, 24]
   \<and> latency_history (record_all (monitor_init 2)
      [(1, 1000000, 1, ''fpga''), (2, 2000000, 1, ''anu''), (3, 3000000, 1, ''fpga'')])
     = [1000, 1000]
   \<and> map ev_timestamp (generation_history (record_all (monitor_init 2)
      [(1, 1000000, 1, ''fpga''), (2, 2000000, 1, ''anu''), (3, 3000000, 1, ''fpga'')]))
     = [2, 3]"
proof -
  have "throughput_of 1000000 1 = Inr 8" "throughput_of 2000000 1 = Inr 16"
    "throughput_of 3000000 1 = Inr 24"
    by (simp_all add: throughput_of_small)
  then have "insertions
      [(1, 1000000, 1, ''fpga''), (2, 2000000, 1, ''anu''), (3, 3000000, 1, ''fpga'')]
      = [(event_of 1 1000000 1 8 ''fpga'', 8, 1000), (event_of 2 2000000 1 16 ''anu'', 16, 1000),
         (event_of 3 3000000 1 24 ''fpga'', 24, 1000)]"
    by simp
  with rolling_windows_bounded_fifo [of 2
      "[(1, 1000000, 1, ''fpga''), (2, 2000000, 1, ''anu''), (3, 3000000, 1, ''fpga'')]"]
  show ?thesis by (simp add: event_of_def)
qed




section \<open>Properties of the quick metrics\<close>

lemma bincount_empty: "bincount [] = replicate 256 0"
  by (simp add: bincount_def map_replicate_const)

lemma np_true_divide_zero: "np_true_divide 0 0 = NaN"
  by (simp add: np_true_divide_def)

lemma probabilities_empty:
  "filter np_greater_zero
     (map (\<lambda>c. np_true_divide (real c) (real (length ([] :: byte list)))) (bincount [])) = []"
  by (simp add: bincount_empty np_true_divide_zero)

lemma ones_ratio_empty:
  "np_true_divide (real (length (filter id (unpackbits []))))
     (real (length (unpackbits []))) = NaN"
  by (simp add: unpackbits_def np_true_divide_zero)

text \<open>On a non-empty input the divisions are ordinary ones.\<close>

lemma bits_of_byte_0F:
  "bits_of_byte 0x0F = [False, False, False, False, True, True, True, True]"
  by (simp add: bits_of_byte_def)

lemma quick_metrics_one_byte:
  "get_quality_metrics False [0x0F] =
     \<lparr>qm_entropy = Finite 0, qm_ones_ratio = Finite 0.5, qm_uniformity_score = Finite 1\<rparr>"
proof -
  have c: "bincount [0x0F] = replicate 15 0 @ [1] @ replicate 240 0"
    unfolding bincount_def by code_simp
  have f: "filter np_greater_zero
      (map (\<lambda>c. np_true_divide (real c) (real (length [0x0F :: byte]))) (bincount [0x0F]))
      = [Finite 1]"
    unfolding c by (simp add: np_true_divide_def filter_replicate)
  show ?thesis
    unfolding get_quality_metrics_def Let_def f
    by (simp add: np_sum_def unpackbits_def bits_of_byte_0F np_true_divide_def)
qed

text \<open>
  Claim C10 as stated, that on the empty byte string \<open>get_quality_metrics\<close>
  returns the value of its \<open>except\<close> branch, fails: nothing raises, the two
  divisions by \<open>len(...) = 0\<close> give \<open>nan\<close>, and the \<open>try\<close> block returns.
\<close>

theorem quick_metrics_empty_not_fallback:
  "get_quality_metrics False [] \<noteq> quality_fallback"
proof -
  have "qm_ones_ratio (get_quality_metrics False []) = NaN"
    unfolding get_quality_metrics_def Let_def by (simp add: ones_ratio_empty)
  moreover have "qm_ones_ratio quality_fallback = Finite 0.5"
    by (simp add: quality_fallback_def)
  ultimately show ?thesis by auto
qed

text \<open>
  Claim C10, amended: on the empty byte string \<open>get_quality_metrics\<close> does not
  raise and returns an entropy of zero, a \<open>ones_ratio\<close> of \<open>nan\<close> and a
  \<open>uniformity_score\<close> of \<open>nan\<close>.
\<close>

theorem quick_metrics_empty_returns_nan:
  "get_quality_metrics False [] =
     \<lparr>qm_entropy = Finite 0, qm_ones_ratio = NaN, qm_uniformity_score = NaN\<rparr>"
proof -
  have "np_negative (np_sum (map p_log2_p [])) = Finite 0"
    by (simp add: np_sum_def)
  moreover have "uniformity NaN = NaN" by simp
  ultimately show ?thesis
    unfolding get_quality_metrics_def Let_def probabilities_empty ones_ratio_empty
    by simp
qed

end
